theory Spec2Isabelle
  imports Main
begin

section \<open>Python helpers used by the sources\<close>

text \<open>
  Python strings are modelled as \<open>string\<close>, dictionaries with string keys either as
  association lists in insertion order (looked up with \<open>map_of\<close>) or as maps.
  Exceptions are values of a sum type: \<open>Inl\<close> carries the exception that the
  Python code would raise at that point.
\<close>

datatype message =
    Must_provide_names_or_all
  | Cannot_provide_both
  | Not_found string "string set"

datatype error =
    KeyError string
  | IndexError
  | ValueError string string
  | BadParameter message
  | AttributeError
  | NotSubscriptable
  | Abort

text \<open>\<^verbatim>\<open>s.startswith(p)\<close>\<close>

definition startswith :: "string \<Rightarrow> string \<Rightarrow> bool" where
  "startswith s p = (take (length p) s = p)"

text \<open>
  \<^verbatim>\<open>s.replace(old, '')\<close>: every non-overlapping occurrence of \<open>old\<close>, found from
  left to right, is removed. For an empty \<open>old\<close> Python inserts the replacement
  between the characters, and since the replacement is empty the string is unchanged.
\<close>

function replace_with_empty :: "string \<Rightarrow> string \<Rightarrow> string" where
  "replace_with_empty [] old = []"
| "replace_with_empty (c # cs) old =
     (if old \<noteq> [] \<and> startswith (c # cs) old
      then replace_with_empty (drop (length old) (c # cs)) old
      else c # replace_with_empty cs old)"
  by pat_completeness auto
termination
  by (relation "measure (\<lambda>(s, old). length s)") auto

text \<open>\<^verbatim>\<open>s.split(sep)\<close> for a one-character separator: never an empty list.\<close>

fun str_split :: "char \<Rightarrow> string \<Rightarrow> string list" where
  "str_split sep [] = [[]]"
| "str_split sep (c # cs) =
     (if c = sep then [] # str_split sep cs
      else (case str_split sep cs of
              [] \<Rightarrow> [[c]]
            | w # ws \<Rightarrow> (c # w) # ws))"

text \<open>\<^verbatim>\<open>xs[1]\<close>: an \<open>IndexError\<close> when the list has fewer than two elements.\<close>

fun index1 :: "'a list \<Rightarrow> error + 'a" where
  "index1 (x # y # ys) = Inr y"
| "index1 xs = Inl IndexError"


section \<open>Status of the development containers (\<open>dev/docker_util.py\<close>)\<close>

subsection \<open>Data\<close>

text \<open>
  One entry of \<^verbatim>\<open>container.attrs['NetworkSettings']['Ports']\<close> is a local port and
  either \<open>None\<close> or a list of host bindings.
\<close>

record host_binding =
  HostIp :: string
  HostPort :: string

text \<open>
  A container object of the Docker client, with the attributes the code reads:
  \<^verbatim>\<open>name\<close>, \<^verbatim>\<open>status\<close>, \<^verbatim>\<open>labels\<close>, \<^verbatim>\<open>id\<close> and the port table.
\<close>

record docker_container =
  c_name :: string
  c_status :: string
  c_labels :: "(string \<times> string) list"
  c_id :: string
  c_ports :: "(string \<times> host_binding list option) list option"

record port_mapping =
  local :: string
  host :: string

text \<open>
  The dictionary built for every container. The keys \<^verbatim>\<open>up\<close>, \<^verbatim>\<open>id\<close> and
  \<^verbatim>\<open>ports\<close> are always there (\<open>up\<close> and \<open>id\<close> may hold \<open>None\<close>); the keys
  \<^verbatim>\<open>labels\<close>, \<^verbatim>\<open>is_dependency\<close> and \<^verbatim>\<open>is_deployment\<close> may be missing, which is
  \<open>None\<close> in the fields \<open>labels\<close>, \<open>is_dependency\<close> and \<open>is_deployment\<close>.
\<close>

record container_data =
  up :: "bool option"
  ports :: "port_mapping list"
  cid :: "string option"
  labels :: "(string \<times> string) list option"
  is_dependency :: "bool option"
  is_deployment :: "bool option"

text \<open>
  A container of the project configuration as \<^verbatim>\<open>get_all_containers\<close> yields it: a
  dictionary of which only the keys \<^verbatim>\<open>is_dependency\<close> and \<^verbatim>\<open>is_deployment\<close> are
  read, each of which may be missing.
\<close>

record config_container =
  conf_is_dependency :: "bool option"
  conf_is_deployment :: "bool option"

type_synonym containers = "string \<rightharpoonup> container_data"
type_synonym env_to_containers = "string \<rightharpoonup> containers"

text \<open>
  \<^verbatim>\<open>get_containers_status\<close> returns the whole dictionary of environments when
  \<^verbatim>\<open>all_environments\<close> is set, and the dictionary of one environment otherwise.
\<close>

datatype status_result =
    All_environments env_to_containers
  | One_environment containers

subsection \<open>The loop over the containers that Docker lists (lines 128--170)\<close>

text \<open>Lines 133--136: the environment of a container.\<close>

definition container_env :: "string \<Rightarrow> docker_container \<Rightarrow> string \<Rightarrow> string" where
  "container_env docker_name container compose_project =
     (case map_of (c_labels container) ''kubetools.project.env'' of
        None \<Rightarrow> replace_with_empty compose_project docker_name
      | Some env \<Rightarrow>
          if env = [] then replace_with_empty compose_project docker_name else env)"

text \<open>Line 139: \<^verbatim>\<open>container.name.split('_')[1]\<close>.\<close>

definition container_name :: "docker_container \<Rightarrow> error + string" where
  "container_name container = index1 (str_split CHR ''_'' (c_name container))"

text \<open>Lines 142--154: the port list.\<close>

fun port_list :: "(string \<times> host_binding list option) list \<Rightarrow> port_mapping list" where
  "port_list [] = []"
| "port_list ((local_port, None) # rest) = port_list rest"
| "port_list ((local_port, Some []) # rest) = port_list rest"
| "port_list ((local_port, Some (b # bs)) # rest) =
     \<lparr>local = local_port, host = HostPort b\<rparr> # port_list rest"

definition container_ports :: "docker_container \<Rightarrow> port_mapping list" where
  "container_ports container =
     (case c_ports container of
        None \<Rightarrow> []
      | Some table \<Rightarrow> port_list table)"

text \<open>Lines 156--161.\<close>

definition live_container_data :: "docker_container \<Rightarrow> container_data" where
  "live_container_data container =
     \<lparr>up = Some (c_status container = ''running''),
      ports = container_ports container,
      cid = Some (c_id container),
      labels = Some (c_labels container),
      is_dependency = None,
      is_deployment = None\<rparr>"

text \<open>
  Lines 129--139: what the loop finds out about one container before it builds its
  record. \<open>docker_name\<close> is \<^verbatim>\<open>dockerise_label(kubetools_config['name'])\<close>. The
  result is \<open>None\<close> when the container is skipped (\<^verbatim>\<open>continue\<close>), and otherwise the
  pair of \<^verbatim>\<open>env\<close> and \<^verbatim>\<open>name\<close>. Reading the label
  \<^verbatim>\<open>com.docker.compose.project\<close> raises \<open>KeyError\<close> when the container has none.
\<close>

definition identify ::
  "string \<Rightarrow> bool \<Rightarrow> docker_container \<Rightarrow> error + (string \<times> string) option"
where
  "identify docker_name all_environments container =
     (case map_of (c_labels container) ''com.docker.compose.project'' of
        None \<Rightarrow> Inl (KeyError ''com.docker.compose.project'')
      | Some compose_project \<Rightarrow>
          if all_environments \<and> \<not> startswith compose_project docker_name then Inr None
          else
            let env = container_env docker_name container compose_project in
            (case container_name container of
               Inl e \<Rightarrow> Inl e
             | Inr name \<Rightarrow> Inr (Some (env, name))))"

text \<open>
  One iteration of the loop of lines 128--170, on the dictionary \<open>m\<close> built so far:
  \<^verbatim>\<open>setdefault\<close>, the test for a duplicate, and the assignment.
\<close>

definition add_container ::
  "string \<Rightarrow> bool \<Rightarrow> env_to_containers \<Rightarrow> docker_container \<Rightarrow> error + env_to_containers"
where
  "add_container docker_name all_environments m container =
     (case identify docker_name all_environments container of
        Inl e \<Rightarrow> Inl e
      | Inr None \<Rightarrow> Inr m
      | Inr (Some (env, name)) \<Rightarrow>
          let env_containers = (case m env of None \<Rightarrow> Map.empty | Some cs \<Rightarrow> cs) in
          if env_containers name \<noteq> None then Inl (ValueError env name)
          else Inr (m(env \<mapsto> env_containers(name \<mapsto> live_container_data container))))"

fun add_containers ::
  "string \<Rightarrow> bool \<Rightarrow> env_to_containers \<Rightarrow> docker_container list \<Rightarrow> error + env_to_containers"
where
  "add_containers docker_name all_environments m [] = Inr m"
| "add_containers docker_name all_environments m (container # rest) =
     (case add_container docker_name all_environments m container of
        Inl e \<Rightarrow> Inl e
      | Inr m' \<Rightarrow> add_containers docker_name all_environments m' rest)"

subsection \<open>The configured containers (lines 172--191)\<close>

text \<open>Lines 172--175.\<close>

definition ensure_current_env :: "string \<Rightarrow> env_to_containers \<Rightarrow> env_to_containers" where
  "ensure_current_env current_env m =
     (if m current_env = None then m(current_env \<mapsto> Map.empty) else m)"

text \<open>Lines 179--187: one configured container, in the dictionary of one environment.\<close>

definition absent_container :: container_data where
  "absent_container =
     \<lparr>up = None, ports = [], cid = None, labels = None,
      is_dependency = None, is_deployment = None\<rparr>"

definition get_default :: "bool option \<Rightarrow> bool" where
  "get_default v = (case v of None \<Rightarrow> False | Some b \<Rightarrow> b)"

definition add_configured :: "containers \<Rightarrow> string \<times> config_container \<Rightarrow> containers" where
  "add_configured cs entry =
     (let name = fst entry; container = snd entry;
          present = (case cs name of None \<Rightarrow> absent_container | Some d \<Rightarrow> d)
      in cs(name \<mapsto> present
           \<lparr>is_dependency := Some (get_default (conf_is_dependency container)),
            is_deployment := Some (get_default (conf_is_deployment container))\<rparr>))"

text \<open>Lines 177--187: every environment of the dictionary gets every configured container.\<close>

definition add_all_configured ::
  "(string \<times> config_container) list \<Rightarrow> env_to_containers \<Rightarrow> env_to_containers"
where
  "add_all_configured all_containers m =
     (\<lambda>env. map_option (\<lambda>cs. foldl add_configured cs all_containers) (m env))"

text \<open>
  \<^verbatim>\<open>get_containers_status\<close>. Its parameters are what the function reads of its
  surroundings: \<open>docker_name\<close> is \<^verbatim>\<open>dockerise_label(kubetools_config['name'])\<close>,
  \<open>current_env\<close> is \<^verbatim>\<open>kubetools_config['env']\<close>, \<open>all_containers\<close> is the list of
  pairs \<^verbatim>\<open>get_all_containers(kubetools_config)\<close>, and \<open>docker_containers\<close> is the
  list the Docker client returns for the label filter of lines 99--123.
\<close>

definition env_to_containers ::
  "string \<Rightarrow> string \<Rightarrow> (string \<times> config_container) list \<Rightarrow> bool \<Rightarrow>
   docker_container list \<Rightarrow> error + env_to_containers"
where
  "env_to_containers docker_name current_env all_containers all_environments docker_containers =
     (case add_containers docker_name all_environments Map.empty docker_containers of
        Inl e \<Rightarrow> Inl e
      | Inr m \<Rightarrow> Inr (add_all_configured all_containers (ensure_current_env current_env m)))"

definition get_containers_status ::
  "string \<Rightarrow> string \<Rightarrow> (string \<times> config_container) list \<Rightarrow> bool \<Rightarrow>
   docker_container list \<Rightarrow> error + status_result"
where
  "get_containers_status docker_name current_env all_containers all_environments docker_containers =
     (case env_to_containers docker_name current_env all_containers all_environments
             docker_containers of
        Inl e \<Rightarrow> Inl e
      | Inr m \<Rightarrow>
          if all_environments then Inr (All_environments m)
          else Inr (One_environment (case m current_env of None \<Rightarrow> Map.empty | Some cs \<Rightarrow> cs)))"

section \<open>Removal of apps from a namespace (\<open>cli/deploy.py\<close>)\<close>

text \<open>
  An object of the cluster, with what the code reads of it: \<^verbatim>\<open>metadata.name\<close> and
  \<^verbatim>\<open>metadata.labels\<close>, which is a dictionary, or \<open>None\<close> for an object that has no
  labels at all.
\<close>

record k8s_object =
  metadata_name :: string
  metadata_labels :: "(string \<times> string) list option"

text \<open>
  Line 178, the test of the filter:
  \<^verbatim>\<open>obj.metadata.labels.get('kubetools/name') in app_names\<close>. Where the labels are
  \<open>None\<close>, calling \<^verbatim>\<open>.get\<close> raises \<open>AttributeError\<close>. A dictionary without the label
  gives \<open>None\<close>, which is in no tuple of app names.
\<close>

definition name_in :: "string list \<Rightarrow> k8s_object \<Rightarrow> error + bool" where
  "name_in app_names obj =
     (case metadata_labels obj of
        None \<Rightarrow> Inl AttributeError
      | Some label_dict \<Rightarrow>
          (case map_of label_dict ''kubetools/name'' of
             None \<Rightarrow> Inr False
           | Some n \<Rightarrow> Inr (n \<in> set app_names)))"

text \<open>
  Lines 177--180, \<^verbatim>\<open>list(filter(...))\<close>: the test is made on every object in the order
  of the listing, and the first exception ends the filter.
\<close>

fun filter_objects :: "string list \<Rightarrow> k8s_object list \<Rightarrow> error + k8s_object list" where
  "filter_objects app_names [] = Inr []"
| "filter_objects app_names (obj # rest) =
     (case name_in app_names obj of
        Inl e \<Rightarrow> Inl e
      | Inr keep \<Rightarrow>
          (case filter_objects app_names rest of
             Inl e \<Rightarrow> Inl e
           | Inr kept \<Rightarrow> Inr (if keep then obj # kept else kept)))"

text \<open>
  Lines 183--186, the list of \<^verbatim>\<open>obj.metadata.labels['kubetools/name']\<close>: indexing
  \<open>None\<close> raises a \<open>TypeError\<close> (\<open>NotSubscriptable\<close>), and indexing the dictionary
  raises \<open>KeyError\<close> where the label is missing.
\<close>

fun object_names :: "k8s_object list \<Rightarrow> error + string list" where
  "object_names [] = Inr []"
| "object_names (obj # rest) =
     (case metadata_labels obj of
        None \<Rightarrow> Inl NotSubscriptable
      | Some label_dict \<Rightarrow>
          (case map_of label_dict ''kubetools/name'' of
             None \<Rightarrow> Inl (KeyError ''kubetools/name'')
           | Some n \<Rightarrow>
               (case object_names rest of
                  Inl e \<Rightarrow> Inl e
                | Inr ns \<Rightarrow> Inr (n # ns))))"

text \<open>
  \<^verbatim>\<open>_get_objects_to_delete\<close> (lines 168--198). \<open>objects\<close> is \<^verbatim>\<open>objects.items\<close> of
  what \<^verbatim>\<open>list_objects_function(build)\<close> answers. What the function prints is left out.
\<close>

definition get_objects_to_delete ::
  "string \<Rightarrow> k8s_object list \<Rightarrow> bool \<Rightarrow> string list \<Rightarrow> bool \<Rightarrow> error + k8s_object list"
where
  "get_objects_to_delete object_type objects remove_all app_names check_leftovers =
     (if remove_all then Inr objects
      else
        (case filter_objects app_names objects of
           Inl e \<Rightarrow> Inl e
         | Inr objects_to_delete \<Rightarrow>
             if check_leftovers then
               (case object_names objects_to_delete of
                  Inl e \<Rightarrow> Inl e
                | Inr names \<Rightarrow>
                    let leftover_app_names = set app_names - set names in
                    if leftover_app_names \<noteq> {}
                    then Inl (BadParameter (Not_found object_type leftover_app_names))
                    else Inr objects_to_delete)
             else Inr objects_to_delete))"

text \<open>
  The calls that \<^verbatim>\<open>remove\<close> makes to the outside, in their order: a listing is the
  first statement of \<^verbatim>\<open>_get_objects_to_delete\<close>, a deletion is one call of the delete
  function in \<^verbatim>\<open>_delete_objects\<close>, and \<open>Confirm\<close> is the prompt of line 259.
\<close>

datatype call =
    List_objects string
  | Confirm
  | Delete_object string string

text \<open>What the three listing functions answer.\<close>

record cluster =
  services :: "k8s_object list"
  deployments :: "k8s_object list"
  jobs :: "k8s_object list"

text \<open>
  What \<^verbatim>\<open>click.confirm\<close> does when it is called: it returns the answer of the user, or
  it raises \<open>Abort\<close> when the input ends or the user interrupts.
\<close>

datatype confirmation =
    Answered bool
  | Aborted

text \<open>
  \<^verbatim>\<open>remove\<close> (lines 223--265): the calls made, and the exception that ends the command
  or \<open>Inr ()\<close>. The prompt is called without \<^verbatim>\<open>--yes\<close> only; the code does not read
  its answer, and an \<open>Abort\<close> ends the command before any deletion.
\<close>

definition delete_objects :: "string \<Rightarrow> k8s_object list \<Rightarrow> call list" where
  "delete_objects object_type objects_to_delete =
     map (\<lambda>obj. Delete_object object_type (metadata_name obj)) objects_to_delete"

definition remove ::
  "cluster \<Rightarrow> bool \<Rightarrow> bool \<Rightarrow> confirmation \<Rightarrow> string list \<Rightarrow> call list \<times> (error + unit)"
where
  "remove k remove_all yes confirm app_names =
     (if app_names = [] \<and> \<not> remove_all
      then ([], Inl (BadParameter Must_provide_names_or_all))
      else if app_names \<noteq> [] \<and> remove_all
      then ([], Inl (BadParameter Cannot_provide_both))
      else
        (case get_objects_to_delete ''Services'' (services k) remove_all app_names True of
           Inl e \<Rightarrow> ([List_objects ''Services''], Inl e)
         | Inr services_to_delete \<Rightarrow>
        (case get_objects_to_delete ''Deployments'' (deployments k) remove_all app_names True of
           Inl e \<Rightarrow> ([List_objects ''Services'', List_objects ''Deployments''], Inl e)
         | Inr deployments_to_delete \<Rightarrow>
        (case get_objects_to_delete ''Jobs'' (jobs k) remove_all app_names False of
           Inl e \<Rightarrow>
             ([List_objects ''Services'', List_objects ''Deployments'', List_objects ''Jobs''],
              Inl e)
         | Inr jobs_to_delete \<Rightarrow>
             if services_to_delete = [] \<and> deployments_to_delete = [] \<and> jobs_to_delete = []
             then
               ([List_objects ''Services'', List_objects ''Deployments'', List_objects ''Jobs''],
                Inr ())
             else if \<not> yes \<and> confirm = Aborted
             then
               ([List_objects ''Services'', List_objects ''Deployments'', List_objects ''Jobs'',
                 Confirm],
                Inl Abort)
             else
               ([List_objects ''Services'', List_objects ''Deployments'', List_objects ''Jobs'']
                  @ (if yes then [] else [Confirm])
                  @ delete_objects ''Services'' services_to_delete
                  @ delete_objects ''Deployments'' deployments_to_delete
                  @ delete_objects ''Jobs'' jobs_to_delete,
                Inr ())))))"

section \<open>Running a command (\<open>dev/docker_util.py\<close>, lines 224--318)\<close>












section \<open>Notions used in the statements\<close>

text \<open>
  The record of a name in an environment of a dictionary of environments, \<open>None\<close> when
  the environment or the name is not in it.
\<close>

definition live_record :: "env_to_containers \<Rightarrow> string \<Rightarrow> string \<Rightarrow> container_data option" where
  "live_record m env name = (case m env of None \<Rightarrow> None | Some cs \<Rightarrow> cs name)"

text \<open>
  The dictionary of an environment in what \<open>get_containers_status\<close> returns: without
  \<^verbatim>\<open>all_environments\<close> the result holds the current environment only.
\<close>

definition result_containers :: "string \<Rightarrow> status_result \<Rightarrow> string \<Rightarrow> containers option" where
  "result_containers current_env r env =
     (case r of
        All_environments m \<Rightarrow> m env
      | One_environment cs \<Rightarrow> if env = current_env then Some cs else None)"

text \<open>
  The pairs of environment and name of the containers of a list that are not skipped and
  whose identification raises nothing, in the order of the list.
\<close>

fun identities :: "string \<Rightarrow> bool \<Rightarrow> docker_container list \<Rightarrow> (string \<times> string) list" where
  "identities docker_name all_environments [] = []"
| "identities docker_name all_environments (container # rest) =
     (case identify docker_name all_environments container of
        Inr (Some key) \<Rightarrow> key # identities docker_name all_environments rest
      | _ \<Rightarrow> identities docker_name all_environments rest)"

text \<open>
  The label \<^verbatim>\<open>kubetools/name\<close> of an object, \<open>None\<close> for an object without it or
  without labels; the objects whose label is among the app names, the labels of these
  objects, and the app names that are the label of none of them.
\<close>

definition name_label :: "k8s_object \<Rightarrow> string option" where
  "name_label obj =
     (case metadata_labels obj of
        None \<Rightarrow> None
      | Some label_dict \<Rightarrow> map_of label_dict ''kubetools/name'')"

definition matches :: "string list \<Rightarrow> k8s_object \<Rightarrow> bool" where
  "matches app_names obj =
     (case name_label obj of None \<Rightarrow> False | Some n \<Rightarrow> n \<in> set app_names)"

definition matched_names :: "k8s_object list \<Rightarrow> string list \<Rightarrow> string set" where
  "matched_names objects app_names =
     set (List.map_filter name_label (filter (matches app_names) objects))"

definition leftover :: "k8s_object list \<Rightarrow> string list \<Rightarrow> string set" where
  "leftover objects app_names = set app_names - matched_names objects app_names"

fun is_delete :: "call \<Rightarrow> bool" where
  "is_delete (Delete_object object_type name) = True"
| "is_delete c = False"



subsection \<open>Inputs of the examples\<close>

definition example_web :: docker_container where
  "example_web =
     \<lparr>c_name = ''projdev_web_1'', c_status = ''running'',
      c_labels = [(''com.docker.compose.project'', ''projdev''),
                  (''kubetools.project.env'', ''dev'')],
      c_id = ''4f2a'',
      c_ports = Some [(''8000/tcp'', Some [\<lparr>HostIp = ''0.0.0.0'', HostPort = ''32000''\<rparr>])]\<rparr>"

definition example_config :: "(string \<times> config_container) list" where
  "example_config =
     [(''web'', \<lparr>conf_is_dependency = None, conf_is_deployment = Some True\<rparr>),
      (''db'', \<lparr>conf_is_dependency = Some True, conf_is_deployment = None\<rparr>)]"

definition example_web_again :: docker_container where
  "example_web_again =
     \<lparr>c_name = ''projdev_web_2'', c_status = ''exited'',
      c_labels = [(''com.docker.compose.project'', ''projdev'')],
      c_id = ''9c1e'',
      c_ports = None\<rparr>"

definition example_foreign :: docker_container where
  "example_foreign =
     \<lparr>c_name = ''redis'', c_status = ''running'',
      c_labels = [(''com.docker.compose.project'', ''other'')],
      c_id = ''77aa'',
      c_ports = None\<rparr>"

definition example_plain :: docker_container where
  "example_plain =
     \<lparr>c_name = ''web'', c_status = ''running'',
      c_labels = [(''com.docker.compose.project'', ''projdev'')],
      c_id = ''0b5d'',
      c_ports = None\<rparr>"


definition example_legacy :: docker_container where
  "example_legacy =
     \<lparr>c_name = ''webwebtest_api_1'', c_status = ''running'',
      c_labels = [(''com.docker.compose.project'', ''webwebtest'')],
      c_id = ''e02f'',
      c_ports = None\<rparr>"

definition example_api :: k8s_object where
  "example_api =
     \<lparr>metadata_name = ''api-7d9'', metadata_labels = Some [(''kubetools/name'', ''api'')]\<rparr>"

definition example_web_object :: k8s_object where
  "example_web_object =
     \<lparr>metadata_name = ''web-5c4'', metadata_labels = Some [(''kubetools/name'', ''web'')]\<rparr>"

definition example_without_labels :: k8s_object where
  "example_without_labels = \<lparr>metadata_name = ''kubernetes'', metadata_labels = None\<rparr>"


definition example_cluster_unmatched :: cluster where
  "example_cluster_unmatched =
     \<lparr>services = [example_without_labels], deployments = [example_web_object], jobs = []\<rparr>"

definition example_cluster :: cluster where
  "example_cluster = \<lparr>services = [example_api], deployments = [example_api], jobs = []\<rparr>"




section \<open>The configured containers in the result\<close>

lemma foldl_add_configured:
  "foldl add_configured cs conf name =
     (case map_of (rev conf) name of
        None \<Rightarrow> cs name
      | Some decl \<Rightarrow>
          Some ((case cs name of None \<Rightarrow> absent_container | Some d \<Rightarrow> d)
            \<lparr>is_dependency := Some (get_default (conf_is_dependency decl)),
             is_deployment := Some (get_default (conf_is_deployment decl))\<rparr>))"
proof (induction conf rule: rev_induct)
  case Nil
  then show ?case by simp
next
  case (snoc x xs)
  obtain n c where x: "x = (n, c)" by (cases x)
  show ?case
  proof (cases "n = name")
    case True
    with snoc x show ?thesis
      by (simp add: add_configured_def split: option.splits)
  next
    case False
    with snoc x show ?thesis
      by (simp add: add_configured_def)
  qed
qed

lemma ensure_current_env_cur: "ensure_current_env cur m cur \<noteq> None"
  by (simp add: ensure_current_env_def)

lemma live_record_ensure:
  "live_record (ensure_current_env cur m) env name = live_record m env name"
  by (simp add: live_record_def ensure_current_env_def)

lemma get_containers_status_Inr:
  assumes "get_containers_status dn cur conf all live = Inr r"
  shows "\<exists>m0 cs. add_containers dn all Map.empty live = Inr m0
           \<and> add_all_configured conf (ensure_current_env cur m0) cur = Some cs
           \<and> r = (if all then All_environments (add_all_configured conf (ensure_current_env cur m0))
                    else One_environment cs)"
proof -
  from assms obtain m0 where m0: "add_containers dn all Map.empty live = Inr m0"
    by (auto simp: get_containers_status_def env_to_containers_def split: sum.splits)
  let ?m = "add_all_configured conf (ensure_current_env cur m0)"
  have "?m cur \<noteq> None"
    by (simp add: add_all_configured_def ensure_current_env_cur)
  then obtain cs where cs: "?m cur = Some cs" by blast
  have "r = (if all then All_environments ?m else One_environment cs)"
    using assms m0 cs by (auto simp: get_containers_status_def env_to_containers_def split: if_splits)
  with m0 cs show ?thesis by blast
qed

text \<open>
  Claim C1. Whenever \<open>get_containers_status\<close> returns, every environment of the result
  holds every name that \<^verbatim>\<open>get_all_containers\<close> yields (\<open>conf\<close> is what it yields for
  the name, the last pair if the name comes more than once). Its record has the flags
  \<open>is_dependency\<close> and \<open>is_deployment\<close> of \<open>conf\<close>, \<open>False\<close> where \<open>conf\<close> has
  none. If the loop over the Docker containers has recorded nothing for the name in
  that environment, the record has no \<open>up\<close>, no \<open>id\<close> and no ports; otherwise it is the
  record of the loop with the two flags set.
\<close>

theorem configured_containers_in_every_environment:
  assumes "get_containers_status docker_name current_env all_containers all_environments
             docker_containers = Inr r"
    and "result_containers current_env r env = Some cs"
    and "map_of (rev all_containers) name = Some conf"
  shows "\<exists>m0 d. add_containers docker_name all_environments Map.empty docker_containers = Inr m0
           \<and> cs name = Some d
           \<and> is_dependency d = Some (get_default (conf_is_dependency conf))
           \<and> is_deployment d = Some (get_default (conf_is_deployment conf))
           \<and> (case live_record m0 env name of
                None \<Rightarrow> up d = None \<and> cid d = None \<and> ports d = []
              | Some d0 \<Rightarrow>
                  d = d0\<lparr>is_dependency := Some (get_default (conf_is_dependency conf)),
                         is_deployment := Some (get_default (conf_is_deployment conf))\<rparr>)"
proof -
  from get_containers_status_Inr [OF assms(1)] obtain m0 cs0
    where m0: "add_containers docker_name all_environments Map.empty docker_containers = Inr m0"
      and cs0: "add_all_configured all_containers (ensure_current_env current_env m0) current_env
                  = Some cs0"
      and r: "r = (if all_environments
                   then All_environments
                          (add_all_configured all_containers (ensure_current_env current_env m0))
                   else One_environment cs0)"
    by blast
  let ?m1 = "ensure_current_env current_env m0"
  have "add_all_configured all_containers ?m1 env = Some cs"
  proof (cases all_environments)
    case True
    with r assms(2) show ?thesis by (simp add: result_containers_def)
  next
    case False
    with r cs0 assms(2) show ?thesis by (auto simp: result_containers_def split: if_splits)
  qed
  then obtain cs1 where cs1: "?m1 env = Some cs1"
    and cs: "cs = foldl add_configured cs1 all_containers"
    by (auto simp: add_all_configured_def)
  have lr: "live_record m0 env name = cs1 name"
    using cs1 live_record_ensure [of current_env m0 env name] by (simp add: live_record_def)
  let ?d = "(case cs1 name of None \<Rightarrow> absent_container | Some d \<Rightarrow> d)
            \<lparr>is_dependency := Some (get_default (conf_is_dependency conf)),
             is_deployment := Some (get_default (conf_is_deployment conf))\<rparr>"
  have d: "cs name = Some ?d"
    by (simp add: cs foldl_add_configured assms(3))
  have "case live_record m0 env name of
                None \<Rightarrow> up ?d = None \<and> cid ?d = None \<and> ports ?d = []
              | Some d0 \<Rightarrow>
                  ?d = d0\<lparr>is_dependency := Some (get_default (conf_is_dependency conf)),
                         is_deployment := Some (get_default (conf_is_deployment conf))\<rparr>"
    by (simp add: lr absent_container_def split: option.splits)
  with m0 d show ?thesis by simp
qed

lemma example_web_added:
  "add_containers ''proj'' False Map.empty [example_web] =
     Inr [''dev'' \<mapsto> [''web'' \<mapsto> live_container_data example_web]]"
  by (simp add: add_container_def identify_def example_web_def startswith_def
      container_env_def container_name_def)

theorem configured_containers_in_every_environment_witness:
  "\<exists>r cs. get_containers_status ''proj'' ''dev'' example_config False [example_web] = Inr r
      \<and> result_containers ''dev'' r ''dev'' = Some cs
      \<and> map_of (rev example_config) ''db''
            = Some \<lparr>conf_is_dependency = Some True, conf_is_deployment = None\<rparr>
      \<and> (\<exists>d. cs ''db'' = Some d \<and> up d = None \<and> cid d = None \<and> ports d = []
             \<and> is_dependency d = Some True \<and> is_deployment d = Some False)"
proof -
  let ?cs = "foldl add_configured [''web'' \<mapsto> live_container_data example_web] example_config"
  have r: "get_containers_status ''proj'' ''dev'' example_config False [example_web]
             = Inr (One_environment ?cs)"
    unfolding get_containers_status_def env_to_containers_def example_web_added
    by (simp add: ensure_current_env_def add_all_configured_def)
  have cs: "result_containers ''dev'' (One_environment ?cs) ''dev'' = Some ?cs"
    by (simp add: result_containers_def)
  have conf: "map_of (rev example_config) ''db''
            = Some \<lparr>conf_is_dependency = Some True, conf_is_deployment = None\<rparr>"
    by (simp add: example_config_def)
  have lr: "live_record [''dev'' \<mapsto> [''web'' \<mapsto> live_container_data example_web]] ''dev'' ''db''
              = None"
    by (simp add: live_record_def)
  let ?conf = "\<lparr>conf_is_dependency = Some True, conf_is_deployment = None\<rparr>"
  from configured_containers_in_every_environment [OF r cs conf] obtain m0 d
    where m0: "add_containers ''proj'' False Map.empty [example_web] = Inr m0"
      and d: "?cs ''db'' = Some d"
      and dep: "is_dependency d = Some (get_default (conf_is_dependency ?conf))"
      and depl: "is_deployment d = Some (get_default (conf_is_deployment ?conf))"
      and live: "case live_record m0 ''dev'' ''db'' of
                   None \<Rightarrow> up d = None \<and> cid d = None \<and> ports d = []
                 | Some d0 \<Rightarrow>
                     d = d0\<lparr>is_dependency := Some (get_default (conf_is_dependency ?conf)),
                            is_deployment := Some (get_default (conf_is_deployment ?conf))\<rparr>"
    by blast
  from m0 have "m0 = [''dev'' \<mapsto> [''web'' \<mapsto> live_container_data example_web]]"
    unfolding example_web_added by simp
  with live lr have "up d = None \<and> cid d = None \<and> ports d = []"
    by simp
  with d dep depl
  have "\<exists>d. ?cs ''db'' = Some d \<and> up d = None \<and> cid d = None \<and> ports d = []
             \<and> is_dependency d = Some True \<and> is_deployment d = Some False"
    by (simp add: get_default_def)
  with r cs conf show ?thesis by blast
qed

text \<open>
  Claim C5. Whenever \<open>get_containers_status\<close> returns, the current environment is a key
  of the dictionary of environments, also when Docker lists no container of it. With
  \<^verbatim>\<open>all_environments\<close> the result is that dictionary; without, it is the dictionary of
  the current environment in it, so that the default of \<^verbatim>\<open>.get\<close> in line 191 is never
  what is returned.
\<close>

theorem current_environment_always_present:
  assumes "get_containers_status docker_name current_env all_containers all_environments
             docker_containers = Inr r"
  shows "\<exists>m cs. env_to_containers docker_name current_env all_containers all_environments
                   docker_containers = Inr m
           \<and> m current_env = Some cs
           \<and> r = (if all_environments then All_environments m else One_environment cs)"
proof -
  from get_containers_status_Inr [OF assms] obtain m0 cs
    where "add_containers docker_name all_environments Map.empty docker_containers = Inr m0"
      and "add_all_configured all_containers (ensure_current_env current_env m0) current_env
             = Some cs"
      and "r = (if all_environments
                then All_environments
                       (add_all_configured all_containers (ensure_current_env current_env m0))
                else One_environment cs)"
    by blast
  then show ?thesis
    by (simp add: env_to_containers_def)
qed

theorem current_environment_always_present_witness:
  "\<exists>r. get_containers_status ''proj'' ''dev'' [] True [] = Inr r
     \<and> (\<exists>m cs. env_to_containers ''proj'' ''dev'' [] True [] = Inr m
           \<and> m ''dev'' = Some cs \<and> r = All_environments m)"
proof -
  have "\<exists>r. get_containers_status ''proj'' ''dev'' [] True [] = Inr r"
    by (simp add: get_containers_status_def env_to_containers_def)
  then obtain r where r: "get_containers_status ''proj'' ''dev'' [] True [] = Inr r" ..
  from current_environment_always_present [OF r] r show ?thesis by auto
qed

section \<open>The loop over the containers\<close>

lemma add_container_cases:
  "add_container dn all m c =
     (case identify dn all c of
        Inl e \<Rightarrow> Inl e
      | Inr None \<Rightarrow> Inr m
      | Inr (Some (env, name)) \<Rightarrow>
          if live_record m env name \<noteq> None then Inl (ValueError env name)
          else Inr (m(env \<mapsto> (case m env of None \<Rightarrow> Map.empty | Some cs \<Rightarrow> cs)
                                 (name \<mapsto> live_container_data c))))"
  by (auto simp: add_container_def live_record_def Let_def split: sum.splits option.splits)

lemma live_record_update:
  "live_record (m(env \<mapsto> (case m env of None \<Rightarrow> Map.empty | Some cs \<Rightarrow> cs)(name \<mapsto> d))) e n =
     (if e = env \<and> n = name then Some d else live_record m e n)"
  by (simp add: live_record_def split: option.splits)

lemma add_container_live_record:
  assumes "add_container dn all m c = Inr m'"
  shows "live_record m' e n \<noteq> None \<longleftrightarrow>
           live_record m e n \<noteq> None \<or> identify dn all c = Inr (Some (e, n))"
proof (cases "identify dn all c")
  case (Inl err)
  with assms show ?thesis by (simp add: add_container_cases)
next
  case (Inr k)
  show ?thesis
  proof (cases k)
    case None
    with Inr assms show ?thesis by (simp add: add_container_cases)
  next
    case (Some key)
    obtain env name where key: "key = (env, name)" by (cases key)
    from assms Inr Some key have fresh: "live_record m env name = None"
      and m': "m' = m(env \<mapsto> (case m env of None \<Rightarrow> Map.empty | Some cs \<Rightarrow> cs)
                                 (name \<mapsto> live_container_data c))"
      by (auto simp: add_container_cases split: if_splits)
    show ?thesis
      unfolding m' live_record_update using Inr Some key fresh by auto
  qed
qed

lemma add_containers_append:
  "add_containers dn all m (xs @ ys) =
     (case add_containers dn all m xs of
        Inl e \<Rightarrow> Inl e
      | Inr m' \<Rightarrow> add_containers dn all m' ys)"
  by (induction xs arbitrary: m) (auto split: sum.splits)

lemma add_containers_live_record:
  assumes "add_containers dn all m cs = Inr m'"
  shows "live_record m' e n \<noteq> None \<longleftrightarrow>
           live_record m e n \<noteq> None \<or> (e, n) \<in> set (identities dn all cs)"
  using assms
proof (induction cs arbitrary: m)
  case Nil
  then show ?case by simp
next
  case (Cons c cs)
  from Cons.prems obtain m1 where m1: "add_container dn all m c = Inr m1"
    and rest: "add_containers dn all m1 cs = Inr m'"
    by (auto split: sum.splits)
  from Cons.IH [OF rest] add_container_live_record [OF m1, of e n]
  show ?case
    by (auto split: sum.splits option.splits)
qed

lemma add_containers_distinct:
  assumes "add_containers dn all m cs = Inr m'"
  shows "distinct (identities dn all cs) \<and>
         (\<forall>k \<in> set (identities dn all cs). live_record m (fst k) (snd k) = None)"
  using assms
proof (induction cs arbitrary: m)
  case Nil
  then show ?case by simp
next
  case (Cons c cs)
  from Cons.prems obtain m1 where m1: "add_container dn all m c = Inr m1"
    and rest: "add_containers dn all m1 cs = Inr m'"
    by (auto split: sum.splits)
  note IH = Cons.IH [OF rest]
  note step = add_container_live_record [OF m1]
  show ?case
  proof (cases "identify dn all c")
    case (Inl e)
    with m1 show ?thesis by (simp add: add_container_cases)
  next
    case (Inr k)
    show ?thesis
    proof (cases k)
      case None
      with Inr m1 have "m1 = m" by (simp add: add_container_cases)
      with IH Inr None show ?thesis by simp
    next
      case (Some key)
      obtain e n where key: "key = (e, n)" by (cases key)
      from m1 Inr Some key have fresh: "live_record m e n = None"
        by (auto simp: add_container_cases split: if_splits)
      from step [of e n] Inr Some key have "live_record m1 e n \<noteq> None" by simp
      with IH have notin: "(e, n) \<notin> set (identities dn all cs)" by force
      have "\<forall>k \<in> set (identities dn all cs). live_record m (fst k) (snd k) = None"
      proof
        fix k assume "k \<in> set (identities dn all cs)"
        with IH have "live_record m1 (fst k) (snd k) = None" by blast
        with step [of "fst k" "snd k"] show "live_record m (fst k) (snd k) = None" by blast
      qed
      with IH notin fresh Inr Some key show ?thesis by simp
    qed
  qed
qed

lemma add_containers_duplicate:
  assumes "add_containers dn all m pre = Inr m'"
    and "identify dn all c = Inr (Some (e, n))"
    and "(e, n) \<in> set (identities dn all pre)"
  shows "add_containers dn all m (pre @ c # post) = Inl (ValueError e n)"
proof -
  from add_containers_live_record [OF assms(1), of e n] assms(3)
  have "live_record m' e n \<noteq> None" by simp
  with assms(2) have "add_container dn all m' c = Inl (ValueError e n)"
    by (simp add: add_container_cases)
  with assms(1) show ?thesis
    by (simp add: add_containers_append)
qed

lemma add_containers_identify_error:
  assumes "c \<in> set cs" and "identify dn all c = Inl e"
  shows "\<exists>e'. add_containers dn all m cs = Inl e'"
  using assms
proof (induction cs arbitrary: m)
  case Nil
  then show ?case by simp
next
  case (Cons x xs)
  show ?case
  proof (cases "add_container dn all m x")
    case (Inl e')
    then show ?thesis by simp
  next
    case (Inr m1)
    with Cons.prems have "c \<noteq> x" by (auto simp: add_container_cases)
    with Cons.prems have "c \<in> set xs" by simp
    from Cons.IH [OF this Cons.prems(2)] Inr show ?thesis by simp
  qed
qed

lemma add_containers_all_identified:
  assumes "\<forall>c \<in> set cs. \<exists>k. identify dn all c = Inr k"
    and "add_containers dn all m cs = Inl e"
  shows "\<exists>env name. e = ValueError env name \<and> (env, name) \<in> set (identities dn all cs)"
  using assms
proof (induction cs arbitrary: m)
  case Nil
  then show ?case by simp
next
  case (Cons c cs)
  from Cons.prems(1) obtain k where k: "identify dn all c = Inr k" by auto
  show ?case
  proof (cases "add_container dn all m c")
    case (Inl e')
    with Cons.prems(2) have "e' = e" by simp
    with Inl k show ?thesis
      by (auto simp: add_container_cases split: option.splits if_splits)
  next
    case (Inr m1)
    with Cons.prems(2) have "add_containers dn all m1 cs = Inl e" by simp
    with Cons.IH [of m1] Cons.prems(1)
    obtain env name where "e = ValueError env name" "(env, name) \<in> set (identities dn all cs)"
      by auto
    with k show ?thesis by (auto split: option.splits)
  qed
qed

lemma add_container_keeps:
  assumes "add_container dn all m c = Inr m'" and "live_record m e n = Some d"
  shows "live_record m' e n = Some d"
proof (cases "identify dn all c")
  case (Inl err)
  with assms show ?thesis by (simp add: add_container_cases)
next
  case (Inr k)
  show ?thesis
  proof (cases k)
    case None
    with Inr assms show ?thesis by (simp add: add_container_cases)
  next
    case (Some key)
    obtain env name where key: "key = (env, name)" by (cases key)
    from assms(1) Inr Some key have fresh: "live_record m env name = None"
      and m': "m' = m(env \<mapsto> (case m env of None \<Rightarrow> Map.empty | Some cs \<Rightarrow> cs)
                                 (name \<mapsto> live_container_data c))"
      by (auto simp: add_container_cases split: if_splits)
    from fresh assms(2) have "\<not> (e = env \<and> n = name)" by auto
    with assms(2) show ?thesis
      unfolding m' live_record_update by auto
  qed
qed

lemma add_containers_keeps:
  assumes "add_containers dn all m cs = Inr m'" and "live_record m e n = Some d"
  shows "live_record m' e n = Some d"
  using assms
proof (induction cs arbitrary: m)
  case Nil
  then show ?case by simp
next
  case (Cons c cs)
  from Cons.prems(1) obtain m1 where m1: "add_container dn all m c = Inr m1"
    and rest: "add_containers dn all m1 cs = Inr m'"
    by (auto split: sum.splits)
  from add_container_keeps [OF m1 Cons.prems(2)] have "live_record m1 e n = Some d" .
  from Cons.IH [OF rest this] show ?case .
qed

lemma identify_example_web:
  "identify ''proj'' False example_web = Inr (Some (''dev'', ''web''))"
  by (simp add: identify_def example_web_def container_env_def container_name_def)

lemma identify_example_web_again:
  "identify ''proj'' False example_web_again = Inr (Some (''dev'', ''web''))"
  by (simp add: identify_def example_web_again_def container_env_def container_name_def
      startswith_def)

text \<open>
  Claim C2, as amended. The identities of a list are the pairs of environment and name
  of its containers that are not skipped. When two listed containers share an identity,
  \<open>get_containers_status\<close> never returns: it returns only when the identities are
  distinct. The \<open>ValueError\<close> of line 166 is raised at the first container whose
  identity an earlier one has, when the containers before it have been recorded; and
  when every listed container can be identified, the exception is that \<open>ValueError\<close>
  for a shared identity. A container that cannot be identified and comes after recorded
  ones ends the function with its own exception. A record that the loop has made is
  never replaced: while the loop goes on without an exception, the record of an
  environment and name stays what it was.
\<close>

theorem duplicate_container_raises:
  "(get_containers_status docker_name current_env all_containers all_environments cs = Inr r
      \<longrightarrow> distinct (identities docker_name all_environments cs))
   \<and> (\<not> distinct (identities docker_name all_environments cs)
      \<longrightarrow> (\<exists>e. get_containers_status docker_name current_env all_containers
                 all_environments cs = Inl e))
   \<and> ((\<forall>c \<in> set cs. \<exists>k. identify docker_name all_environments c = Inr k)
        \<and> \<not> distinct (identities docker_name all_environments cs)
      \<longrightarrow> (\<exists>env name. (env, name) \<in> set (identities docker_name all_environments cs)
            \<and> get_containers_status docker_name current_env all_containers all_environments cs
                = Inl (ValueError env name)))
   \<and> (add_containers docker_name all_environments Map.empty pre = Inr m
        \<and> identify docker_name all_environments c = Inr (Some (env, name))
        \<and> (env, name) \<in> set (identities docker_name all_environments pre)
      \<longrightarrow> get_containers_status docker_name current_env all_containers all_environments
            (pre @ c # post) = Inl (ValueError env name))
   \<and> (add_containers docker_name all_environments m0 cs' = Inr m1
        \<and> live_record m0 env' name' = Some d
      \<longrightarrow> live_record m1 env' name' = Some d)
   \<and> (add_containers docker_name all_environments Map.empty pre' = Inr m'
        \<and> identify docker_name all_environments c' = Inl e'
      \<longrightarrow> get_containers_status docker_name current_env all_containers all_environments
            (pre' @ c' # post') = Inl e')"
proof (intro conjI impI)
  assume "get_containers_status docker_name current_env all_containers all_environments cs = Inr r"
  then obtain m0 where "add_containers docker_name all_environments Map.empty cs = Inr m0"
    by (auto simp: get_containers_status_def env_to_containers_def split: sum.splits)
  from add_containers_distinct [OF this]
  show "distinct (identities docker_name all_environments cs)" by simp
next
  assume shared: "\<not> distinct (identities docker_name all_environments cs)"
  show "\<exists>e. get_containers_status docker_name current_env all_containers
                 all_environments cs = Inl e"
  proof (cases "add_containers docker_name all_environments Map.empty cs")
    case (Inl e)
    then show ?thesis
      by (simp add: get_containers_status_def env_to_containers_def)
  next
    case (Inr m0)
    from add_containers_distinct [OF this] shared show ?thesis by simp
  qed
next
  assume a: "(\<forall>c \<in> set cs. \<exists>k. identify docker_name all_environments c = Inr k)
        \<and> \<not> distinct (identities docker_name all_environments cs)"
  have "\<exists>e. add_containers docker_name all_environments Map.empty cs = Inl e"
  proof (cases "add_containers docker_name all_environments Map.empty cs")
    case (Inl e)
    then show ?thesis by simp
  next
    case (Inr m0)
    from add_containers_distinct [OF this] a show ?thesis by simp
  qed
  then obtain e where e: "add_containers docker_name all_environments Map.empty cs = Inl e" ..
  from add_containers_all_identified [OF _ e] a
  obtain env name where "e = ValueError env name"
    "(env, name) \<in> set (identities docker_name all_environments cs)" by blast
  with e show "\<exists>env name. (env, name) \<in> set (identities docker_name all_environments cs)
            \<and> get_containers_status docker_name current_env all_containers all_environments cs
                = Inl (ValueError env name)"
    by (auto simp: get_containers_status_def env_to_containers_def)
next
  assume "add_containers docker_name all_environments Map.empty pre = Inr m
        \<and> identify docker_name all_environments c = Inr (Some (env, name))
        \<and> (env, name) \<in> set (identities docker_name all_environments pre)"
  then have "add_containers docker_name all_environments Map.empty (pre @ c # post)
               = Inl (ValueError env name)"
    by (blast intro: add_containers_duplicate)
  then show "get_containers_status docker_name current_env all_containers all_environments
            (pre @ c # post) = Inl (ValueError env name)"
    by (simp add: get_containers_status_def env_to_containers_def)
next
  assume "add_containers docker_name all_environments m0 cs' = Inr m1
        \<and> live_record m0 env' name' = Some d"
  then show "live_record m1 env' name' = Some d"
    by (blast intro: add_containers_keeps)
next
  assume "add_containers docker_name all_environments Map.empty pre' = Inr m'
        \<and> identify docker_name all_environments c' = Inl e'"
  then have "add_containers docker_name all_environments Map.empty (pre' @ c' # post') = Inl e'"
    by (simp add: add_containers_append add_container_cases)
  then show "get_containers_status docker_name current_env all_containers all_environments
            (pre' @ c' # post') = Inl e'"
    by (simp add: get_containers_status_def env_to_containers_def)
qed

theorem duplicate_container_raises_witness:
  "(\<exists>r. get_containers_status ''proj'' ''dev'' example_config False [example_web] = Inr r)
   \<and> distinct (identities ''proj'' False [example_web])
   \<and> identify ''proj'' False example_web_again = Inr (Some (''dev'', ''web''))
   \<and> (''dev'', ''web'') \<in> set (identities ''proj'' False [example_web])
   \<and> get_containers_status ''proj'' ''dev'' example_config False
         ([example_web] @ example_web_again # []) = Inl (ValueError ''dev'' ''web'')"
proof -
  let ?m = "[''dev'' \<mapsto> [''web'' \<mapsto> live_container_data example_web]]"
  have r: "\<exists>r. get_containers_status ''proj'' ''dev'' example_config False [example_web] = Inr r"
    unfolding get_containers_status_def env_to_containers_def example_web_added by simp
  then obtain r where r': "get_containers_status ''proj'' ''dev'' example_config False [example_web] = Inr r" ..
  have ids: "identities ''proj'' False [example_web] = [(''dev'', ''web'')]"
    by (simp add: identify_example_web)
  note T = duplicate_container_raises [of "''proj''" "''dev''" example_config False
      "[example_web]" r "[example_web]" ?m example_web_again "''dev''" "''web''" "[]"]
  from T r' have d: "distinct (identities ''proj'' False [example_web])" by blast
  from T example_web_added identify_example_web_again ids
  have "get_containers_status ''proj'' ''dev'' example_config False
         ([example_web] @ example_web_again # []) = Inl (ValueError ''dev'' ''web'')"
    by simp
  with r d identify_example_web_again ids show ?thesis by simp
qed

text \<open>
  Claim C2 as stated fails: the first and the third container of this list have the
  identity of environment \<^verbatim>\<open>dev\<close> and name \<^verbatim>\<open>web\<close>, and the function ends with the
  \<open>IndexError\<close> of the second, whose name has no underscore, before it comes to the
  third.
\<close>

theorem shared_identity_after_unnamed_container:
  "identify ''proj'' False example_web = Inr (Some (''dev'', ''web''))
   \<and> identify ''proj'' False example_web_again = Inr (Some (''dev'', ''web''))
   \<and> get_containers_status ''proj'' ''dev'' example_config False
        [example_web, example_plain, example_web_again] = Inl IndexError"
  by (simp add: get_containers_status_def env_to_containers_def add_container_def identify_def
      container_env_def container_name_def startswith_def example_web_def example_plain_def
      example_web_again_def)

section \<open>The name of a container\<close>

lemma str_split_no_separator: "sep \<notin> set s \<Longrightarrow> str_split sep s = [s]"
  by (induction s) auto

lemma str_split_not_empty: "str_split sep s \<noteq> []"
  by (induction s) (auto split: list.splits)

lemma str_split_first_segment:
  "sep \<notin> set a \<Longrightarrow> str_split sep (a @ sep # b) = a # str_split sep b"
  by (induction a) auto

lemma hd_str_split: "hd (str_split sep s) = takeWhile (\<lambda>x. x \<noteq> sep) s"
  by (induction s) (auto simp: str_split_not_empty split: list.splits)

lemma index1_second:
  "xs \<noteq> [] \<Longrightarrow> index1 (x # xs) = Inr (hd xs)"
  by (cases xs) auto

lemma container_name_second_segment:
  assumes "c_name c = a @ CHR ''_'' # b" and "CHR ''_'' \<notin> set a"
  shows "container_name c = Inr (takeWhile (\<lambda>x. x \<noteq> CHR ''_'') b)"
  using assms
  by (simp add: container_name_def str_split_first_segment index1_second str_split_not_empty
      hd_str_split)

lemma container_name_no_separator:
  "CHR ''_'' \<notin> set (c_name c) \<Longrightarrow> container_name c = Inl IndexError"
  by (simp add: container_name_def str_split_no_separator)

lemma identify_no_separator:
  assumes "CHR ''_'' \<notin> set (c_name c)"
    and "map_of (c_labels c) ''com.docker.compose.project'' = Some p"
    and "all \<longrightarrow> startswith p dn"
  shows "identify dn all c = Inl IndexError"
  using assms by (auto simp: identify_def container_name_no_separator)

text \<open>
  Claim C10, as amended. The name of a container is the second of the segments that the
  underscores of \<^verbatim>\<open>container.name\<close> delimit. A container with the label
  \<^verbatim>\<open>com.docker.compose.project\<close> that is not skipped (without \<^verbatim>\<open>all_environments\<close>, or
  its compose project starts with the name of the project) and whose name has no
  underscore cannot be identified: line 139 raises \<open>IndexError\<close>. A list that holds such a
  container never makes \<open>get_containers_status\<close> return, and the exception is that
  \<open>IndexError\<close> when the containers before it have been recorded.
\<close>

theorem name_without_separator_raises:
  assumes "CHR ''_'' \<notin> set (c_name c)"
    and "map_of (c_labels c) ''com.docker.compose.project'' = Some compose_project"
    and "all_environments \<longrightarrow> startswith compose_project docker_name"
  shows "identify docker_name all_environments c = Inl IndexError
    \<and> (c \<in> set cs \<longrightarrow>
         (\<exists>e. get_containers_status docker_name current_env all_containers all_environments cs
                = Inl e))
    \<and> (add_containers docker_name all_environments Map.empty pre = Inr m \<longrightarrow>
         get_containers_status docker_name current_env all_containers all_environments
           (pre @ c # post) = Inl IndexError)
    \<and> (c_name c' = a @ CHR ''_'' # b \<and> CHR ''_'' \<notin> set a \<longrightarrow>
         container_name c' = Inr (takeWhile (\<lambda>x. x \<noteq> CHR ''_'') b))"
proof -
  have i: "identify docker_name all_environments c = Inl IndexError"
    using assms by (rule identify_no_separator)
  have anywhere: "\<exists>e. get_containers_status docker_name current_env all_containers
                     all_environments cs = Inl e" if "c \<in> set cs"
    using add_containers_identify_error [OF that i, of Map.empty]
    by (auto simp: get_containers_status_def env_to_containers_def)
  have first: "get_containers_status docker_name current_env all_containers all_environments
           (pre @ c # post) = Inl IndexError"
    if "add_containers docker_name all_environments Map.empty pre = Inr m"
  proof -
    from that i have "add_containers docker_name all_environments Map.empty (pre @ c # post)
                   = Inl IndexError"
      by (simp add: add_containers_append add_container_cases)
    then show ?thesis
      by (simp add: get_containers_status_def env_to_containers_def)
  qed
  have second: "container_name c' = Inr (takeWhile (\<lambda>x. x \<noteq> CHR ''_'') b)"
    if "c_name c' = a @ CHR ''_'' # b \<and> CHR ''_'' \<notin> set a"
    using that by (simp add: container_name_second_segment)
  from i anywhere first second show ?thesis by blast
qed

theorem name_without_separator_raises_witness:
  "CHR ''_'' \<notin> set (c_name example_plain)
   \<and> map_of (c_labels example_plain) ''com.docker.compose.project'' = Some ''projdev''
   \<and> startswith ''projdev'' ''proj''
   \<and> identify ''proj'' True example_plain = Inl IndexError
   \<and> example_plain \<in> set [example_web, example_plain]
   \<and> add_containers ''proj'' True Map.empty [example_web]
       = Inr [''dev'' \<mapsto> [''web'' \<mapsto> live_container_data example_web]]
   \<and> get_containers_status ''proj'' ''dev'' example_config True
        ([example_web] @ example_plain # []) = Inl IndexError
   \<and> c_name example_web = ''projdev'' @ CHR ''_'' # ''web_1''
   \<and> container_name example_web = Inr ''web''"
proof -
  have 1: "CHR ''_'' \<notin> set (c_name example_plain)"
    by (simp add: example_plain_def)
  have 2: "map_of (c_labels example_plain) ''com.docker.compose.project'' = Some ''projdev''"
    by (simp add: example_plain_def)
  have 3: "startswith ''projdev'' ''proj''"
    by (simp add: startswith_def)
  then have imp: "True \<longrightarrow> startswith ''projdev'' ''proj''" by simp
  have 4: "add_containers ''proj'' True Map.empty [example_web]
       = Inr [''dev'' \<mapsto> [''web'' \<mapsto> live_container_data example_web]]"
    by (simp add: add_container_def identify_def example_web_def startswith_def
      container_env_def container_name_def)
  have 5: "c_name example_web = ''projdev'' @ CHR ''_'' # ''web_1''"
    by (simp add: example_web_def)
  have 6: "CHR ''_'' \<notin> set ''projdev''" by simp
  note T = name_without_separator_raises [OF 1 2 imp, of "[example_web, example_plain]"
      "''dev''" example_config "[example_web]"
      "[''dev'' \<mapsto> [''web'' \<mapsto> live_container_data example_web]]" "[]"
      example_web "''projdev''" "''web_1''"]
  from T 4 5 6 have "identify ''proj'' True example_plain = Inl IndexError"
    and "get_containers_status ''proj'' ''dev'' example_config True
        ([example_web] @ example_plain # []) = Inl IndexError"
    and "container_name example_web = Inr ''web''"
    by simp_all
  with 1 2 3 4 5 show ?thesis by simp
qed

text \<open>
  Claim C10 as stated fails: with \<^verbatim>\<open>all_environments\<close>, a container of another compose
  project is skipped in line 131 before its name is split, so that a name without an
  underscore raises nothing.
\<close>

theorem skipped_container_without_separator:
  "CHR ''_'' \<notin> set (c_name example_foreign)
   \<and> (\<exists>r. get_containers_status ''proj'' ''dev'' example_config True [example_foreign] = Inr r)"
  by (simp add: get_containers_status_def env_to_containers_def add_container_def identify_def
      example_foreign_def startswith_def)

section \<open>The environment of a container\<close>

lemma container_env_label:
  "map_of (c_labels c) ''kubetools.project.env'' = Some env \<Longrightarrow> env \<noteq> [] \<Longrightarrow>
     container_env dn c p = env"
  by (simp add: container_env_def)


lemma replace_with_empty_prefix:
  "old \<noteq> [] \<Longrightarrow> replace_with_empty (old @ s) old = replace_with_empty s old"
  by (cases old) (simp_all add: startswith_def)





text \<open>
  Claim C6. For a container without the environment label, line 136 removes every
  occurrence of the name of the project from the compose project, not only the leading
  one (\<open>replace_with_empty_prefix\<close>: after the leading one the rest is searched too). For
  the project \<^verbatim>\<open>web\<close> and the compose project \<^verbatim>\<open>webwebtest\<close>, which is the name followed
  by the environment \<^verbatim>\<open>webtest\<close>, the environment found is \<^verbatim>\<open>test\<close>.
\<close>

theorem legacy_environment_loses_the_project_name:
  "map_of (c_labels example_legacy) ''com.docker.compose.project'' = Some (''web'' @ ''webtest'')
   \<and> map_of (c_labels example_legacy) ''kubetools.project.env'' = None
   \<and> container_env ''web'' example_legacy (''web'' @ ''webtest'') = ''test''
   \<and> identify ''web'' True example_legacy = Inr (Some (''test'', ''api''))"
  by (simp add: identify_def container_env_def container_name_def example_legacy_def
      startswith_def)

section \<open>Removal\<close>

lemma name_in_labelled:
  "metadata_labels obj \<noteq> None \<Longrightarrow> name_in app_names obj = Inr (matches app_names obj)"
  by (auto simp: name_in_def matches_def name_label_def split: option.splits)

lemma name_in_without_labels:
  "metadata_labels obj = None \<Longrightarrow> name_in app_names obj = Inl AttributeError"
  by (simp add: name_in_def)

lemma filter_objects_labelled:
  "\<forall>obj \<in> set objects. metadata_labels obj \<noteq> None \<Longrightarrow>
     filter_objects app_names objects = Inr (filter (matches app_names) objects)"
  by (induction objects) (simp_all add: name_in_labelled)

lemma filter_objects_without_labels:
  "\<exists>obj \<in> set objects. metadata_labels obj = None \<Longrightarrow>
     filter_objects app_names objects = Inl AttributeError"
proof (induction objects)
  case Nil
  then show ?case by simp
next
  case (Cons obj rest)
  show ?case
  proof (cases "metadata_labels obj")
    case None
    then show ?thesis by (simp add: name_in_without_labels)
  next
    case (Some label_dict)
    with Cons.prems have "\<exists>obj \<in> set rest. metadata_labels obj = None" by auto
    from Cons.IH [OF this] Some show ?thesis by (simp add: name_in_labelled)
  qed
qed

lemma object_names_matched:
  "object_names (filter (matches app_names) objects) =
     Inr (List.map_filter name_label (filter (matches app_names) objects))"
  by (induction objects)
     (auto simp: matches_def name_label_def split: option.splits)

lemma get_objects_to_delete_all:
  "get_objects_to_delete object_type objects True app_names check_leftovers = Inr objects"
  by (simp add: get_objects_to_delete_def)

lemma get_objects_to_delete_without_labels:
  "\<exists>obj \<in> set objects. metadata_labels obj = None \<Longrightarrow>
     get_objects_to_delete object_type objects False app_names check_leftovers
       = Inl AttributeError"
  by (simp add: get_objects_to_delete_def filter_objects_without_labels)

lemma get_objects_to_delete_checked:
  "\<forall>obj \<in> set objects. metadata_labels obj \<noteq> None \<Longrightarrow>
   get_objects_to_delete object_type objects False app_names True =
     (if leftover objects app_names = {} then Inr (filter (matches app_names) objects)
      else Inl (BadParameter (Not_found object_type (leftover objects app_names))))"
  by (simp add: get_objects_to_delete_def filter_objects_labelled object_names_matched
      leftover_def matched_names_def Let_def)

lemma get_objects_to_delete_unchecked:
  "\<forall>obj \<in> set objects. metadata_labels obj \<noteq> None \<Longrightarrow>
   get_objects_to_delete object_type objects False app_names False =
     Inr (filter (matches app_names) objects)"
  by (simp add: get_objects_to_delete_def filter_objects_labelled)

lemma get_objects_to_delete_error:
  assumes "get_objects_to_delete object_type objects remove_all app_names check_leftovers = Inl e"
  shows "\<not> remove_all \<and>
         (e = AttributeError
          \<or> check_leftovers \<and> leftover objects app_names \<noteq> {}
            \<and> e = BadParameter (Not_found object_type (leftover objects app_names)))"
proof (cases remove_all)
  case True
  with assms show ?thesis by (simp add: get_objects_to_delete_all)
next
  case False
  show ?thesis
  proof (cases "\<exists>obj \<in> set objects. metadata_labels obj = None")
    case True
    from get_objects_to_delete_without_labels [OF this] assms \<open>\<not> remove_all\<close>
    show ?thesis by simp
  next
    case labelled: False
    then have l: "\<forall>obj \<in> set objects. metadata_labels obj \<noteq> None" by simp
    show ?thesis
    proof (cases check_leftovers)
      case True
      with assms \<open>\<not> remove_all\<close> get_objects_to_delete_checked [OF l] show ?thesis
        by (auto split: if_splits)
    next
      case False
      with assms \<open>\<not> remove_all\<close> get_objects_to_delete_unchecked [OF l] show ?thesis
        by simp
    qed
  qed
qed

lemma unchecked_listing_never_validation_error:
  "get_objects_to_delete object_type objects remove_all app_names False
     \<noteq> Inl (BadParameter msg)"
proof
  assume "get_objects_to_delete object_type objects remove_all app_names False
     = Inl (BadParameter msg)"
  from get_objects_to_delete_error [OF this] show False by simp
qed

lemma matched_names_iff:
  "n \<in> matched_names objects app_names \<longleftrightarrow>
     n \<in> set app_names \<and> (\<exists>obj \<in> set objects. name_label obj = Some n)"
  unfolding matched_names_def
  by (induction objects) (auto simp: matches_def split: option.splits)

lemma leftover_iff:
  "n \<in> leftover objects app_names \<longleftrightarrow>
     n \<in> set app_names
     \<and> \<not> (\<exists>obj \<in> set objects. matches app_names obj \<and> name_label obj = Some n)"
  by (auto simp: leftover_def matched_names_iff matches_def)

lemma is_delete_delete_objects [simp]:
  "filter is_delete (delete_objects t objs) = delete_objects t objs"
  by (induction objs) (simp_all add: delete_objects_def)

lemma remove_neither:
  "app_names = [] \<Longrightarrow> \<not> remove_all \<Longrightarrow>
     remove k remove_all yes confirm app_names
       = ([], Inl (BadParameter Must_provide_names_or_all))"
  by (simp add: remove_def)

lemma remove_both:
  "app_names \<noteq> [] \<Longrightarrow> remove_all \<Longrightarrow>
     remove k remove_all yes confirm app_names = ([], Inl (BadParameter Cannot_provide_both))"
  by (simp add: remove_def)

lemma remove_services_error:
  assumes "(app_names \<noteq> []) \<noteq> remove_all"
    and "get_objects_to_delete ''Services'' (services k) remove_all app_names True = Inl e"
  shows "remove k remove_all yes confirm app_names = ([List_objects ''Services''], Inl e)"
  using assms by (auto simp: remove_def)

lemma remove_deployments_error:
  assumes "(app_names \<noteq> []) \<noteq> remove_all"
    and "get_objects_to_delete ''Services'' (services k) remove_all app_names True = Inr sv"
    and "get_objects_to_delete ''Deployments'' (deployments k) remove_all app_names True = Inl e"
  shows "remove k remove_all yes confirm app_names
           = ([List_objects ''Services'', List_objects ''Deployments''], Inl e)"
  using assms by (auto simp: remove_def)

lemma remove_jobs_error:
  assumes "(app_names \<noteq> []) \<noteq> remove_all"
    and "get_objects_to_delete ''Services'' (services k) remove_all app_names True = Inr sv"
    and "get_objects_to_delete ''Deployments'' (deployments k) remove_all app_names True = Inr dp"
    and "get_objects_to_delete ''Jobs'' (jobs k) remove_all app_names False = Inl e"
  shows "remove k remove_all yes confirm app_names
           = ([List_objects ''Services'', List_objects ''Deployments'', List_objects ''Jobs''],
              Inl e)"
  using assms by (auto simp: remove_def)

lemma remove_listed:
  assumes "(app_names \<noteq> []) \<noteq> remove_all"
    and "get_objects_to_delete ''Services'' (services k) remove_all app_names True = Inr sv"
    and "get_objects_to_delete ''Deployments'' (deployments k) remove_all app_names True = Inr dp"
    and "get_objects_to_delete ''Jobs'' (jobs k) remove_all app_names False = Inr jb"
  shows "(\<exists>calls. remove k remove_all yes confirm app_names
            = (List_objects ''Services'' # List_objects ''Deployments'' # List_objects ''Jobs''
                 # calls, Inr ()))
         \<or> remove k remove_all yes confirm app_names
            = ([List_objects ''Services'', List_objects ''Deployments'', List_objects ''Jobs'',
                Confirm], Inl Abort)"
  using assms by (auto simp: remove_def)

lemma remove_error_no_delete:
  assumes "snd (remove k remove_all yes confirm app_names) = Inl e"
  shows "filter is_delete (fst (remove k remove_all yes confirm app_names)) = []"
proof (cases "(app_names \<noteq> []) \<noteq> remove_all")
  case False
  then show ?thesis
    by (cases remove_all) (simp_all add: remove_neither remove_both)
next
  case valid: True
  show ?thesis
  proof (cases "get_objects_to_delete ''Services'' (services k) remove_all app_names True")
    case (Inl e1)
    from remove_services_error [OF valid this] show ?thesis by simp
  next
    case sv: (Inr sv)
    show ?thesis
    proof (cases "get_objects_to_delete ''Deployments'' (deployments k) remove_all app_names True")
      case (Inl e2)
      from remove_deployments_error [OF valid sv this] show ?thesis by simp
    next
      case dp: (Inr dp)
      show ?thesis
      proof (cases "get_objects_to_delete ''Jobs'' (jobs k) remove_all app_names False")
        case (Inl e3)
        from remove_jobs_error [OF valid sv dp this] show ?thesis by simp
      next
        case (Inr jb)
        from remove_listed [OF valid sv dp this, of yes confirm] assms show ?thesis by auto
      qed
    qed
  qed
qed

lemma leftover_names_with_labels:
  assumes "\<forall>obj \<in> set objects. metadata_labels obj \<noteq> None"
  shows "((\<exists>e. get_objects_to_delete object_type objects False app_names True = Inl e)
            \<longleftrightarrow> leftover objects app_names \<noteq> {})
    \<and> (leftover objects app_names \<noteq> {} \<longrightarrow>
         get_objects_to_delete object_type objects False app_names True
           = Inl (BadParameter (Not_found object_type (leftover objects app_names))))
    \<and> (leftover objects app_names = {} \<longrightarrow>
         get_objects_to_delete object_type objects False app_names True
           = Inr (filter (matches app_names) objects))"
  by (simp add: get_objects_to_delete_checked [OF assms])

lemma remove_with_labels:
  assumes "app_names \<noteq> []" and "\<not> remove_all"
    and "\<forall>obj \<in> set (services k). metadata_labels obj \<noteq> None"
    and "\<forall>obj \<in> set (deployments k). metadata_labels obj \<noteq> None"
  shows "(\<exists>msg. snd (remove k remove_all yes confirm app_names) = Inl (BadParameter msg))
           \<longleftrightarrow> leftover (services k) app_names \<noteq> {} \<or> leftover (deployments k) app_names \<noteq> {}"
proof -
  from assms have valid: "(app_names \<noteq> []) \<noteq> remove_all" by simp
  from assms(2) have all: "remove_all = False" by simp
  show ?thesis
  proof (cases "leftover (services k) app_names = {}")
    case False
    then have "get_objects_to_delete ''Services'' (services k) remove_all app_names True
        = Inl (BadParameter (Not_found ''Services'' (leftover (services k) app_names)))"
      by (simp add: all get_objects_to_delete_checked [OF assms(3)])
    from remove_services_error [OF valid this] False show ?thesis by simp
  next
    case True
    then have sv: "get_objects_to_delete ''Services'' (services k) remove_all app_names True
        = Inr (filter (matches app_names) (services k))"
      by (simp add: all get_objects_to_delete_checked [OF assms(3)])
    show ?thesis
    proof (cases "leftover (deployments k) app_names = {}")
      case False
      then have "get_objects_to_delete ''Deployments'' (deployments k) remove_all app_names True
        = Inl (BadParameter (Not_found ''Deployments'' (leftover (deployments k) app_names)))"
        by (simp add: all get_objects_to_delete_checked [OF assms(4)])
      from remove_deployments_error [OF valid sv this] True False show ?thesis by simp
    next
      case dpe: True
      then have dp: "get_objects_to_delete ''Deployments'' (deployments k) remove_all app_names True
        = Inr (filter (matches app_names) (deployments k))"
        by (simp add: all get_objects_to_delete_checked [OF assms(4)])
      show ?thesis
      proof (cases "get_objects_to_delete ''Jobs'' (jobs k) remove_all app_names False")
        case (Inl e3)
        from get_objects_to_delete_error [OF this] remove_jobs_error [OF valid sv dp this]
          True dpe
        show ?thesis by auto
      next
        case (Inr jb)
        from remove_listed [OF valid sv dp this, of yes confirm] True dpe show ?thesis by auto
      qed
    qed
  qed
qed

text \<open>
  Claim C4. \<open>remove\<close> without app names and without \<^verbatim>\<open>--all\<close>, and \<open>remove\<close> with both,
  raises \<open>BadParameter\<close> before it makes any call. With exactly one of the two, neither
  of these exceptions is raised and the listing of the services is called.
\<close>

theorem names_or_all_exactly_one:
  "(app_names = [] \<and> \<not> remove_all \<longrightarrow>
      remove k remove_all yes confirm app_names
        = ([], Inl (BadParameter Must_provide_names_or_all)))
   \<and> (app_names \<noteq> [] \<and> remove_all \<longrightarrow>
      remove k remove_all yes confirm app_names = ([], Inl (BadParameter Cannot_provide_both)))
   \<and> ((app_names \<noteq> []) \<noteq> remove_all \<longrightarrow>
      snd (remove k remove_all yes confirm app_names)
        \<noteq> Inl (BadParameter Must_provide_names_or_all)
      \<and> snd (remove k remove_all yes confirm app_names) \<noteq> Inl (BadParameter Cannot_provide_both)
      \<and> take 1 (fst (remove k remove_all yes confirm app_names)) = [List_objects ''Services''])"
proof -
  have valid: "snd (remove k remove_all yes confirm app_names)
        \<noteq> Inl (BadParameter Must_provide_names_or_all)
      \<and> snd (remove k remove_all yes confirm app_names) \<noteq> Inl (BadParameter Cannot_provide_both)
      \<and> take 1 (fst (remove k remove_all yes confirm app_names)) = [List_objects ''Services'']"
    if valid: "(app_names \<noteq> []) \<noteq> remove_all"
  proof (cases "get_objects_to_delete ''Services'' (services k) remove_all app_names True")
    case (Inl e1)
    from get_objects_to_delete_error [OF this] remove_services_error [OF valid this]
    show ?thesis by auto
  next
    case sv: (Inr sv)
    show ?thesis
    proof (cases "get_objects_to_delete ''Deployments'' (deployments k) remove_all app_names True")
      case (Inl e2)
      from get_objects_to_delete_error [OF this] remove_deployments_error [OF valid sv this]
      show ?thesis by auto
    next
      case dp: (Inr dp)
      show ?thesis
      proof (cases "get_objects_to_delete ''Jobs'' (jobs k) remove_all app_names False")
        case (Inl e3)
        from get_objects_to_delete_error [OF this] remove_jobs_error [OF valid sv dp this]
        show ?thesis by auto
      next
        case (Inr jb)
        from remove_listed [OF valid sv dp this, of yes confirm] show ?thesis by auto
      qed
    qed
  qed
  then show ?thesis
    by (simp add: remove_neither remove_both)
qed

theorem names_or_all_exactly_one_witness:
  "remove example_cluster False True (Answered True) []
     = ([], Inl (BadParameter Must_provide_names_or_all))
   \<and> remove example_cluster True True (Answered True) [''api'']
     = ([], Inl (BadParameter Cannot_provide_both))
   \<and> snd (remove example_cluster False True (Answered True) [''api''])
        \<noteq> Inl (BadParameter Must_provide_names_or_all)
   \<and> snd (remove example_cluster False True (Answered True) [''api''])
        \<noteq> Inl (BadParameter Cannot_provide_both)
   \<and> take 1 (fst (remove example_cluster False True (Answered True) [''api'']))
        = [List_objects ''Services'']
   \<and> snd (remove example_cluster True False Aborted [])
        \<noteq> Inl (BadParameter Must_provide_names_or_all)
   \<and> snd (remove example_cluster True False Aborted []) \<noteq> Inl (BadParameter Cannot_provide_both)"
  using names_or_all_exactly_one [of "[]" False example_cluster True "Answered True"]
    names_or_all_exactly_one [of "[''api'']" True example_cluster True "Answered True"]
    names_or_all_exactly_one [of "[''api'']" False example_cluster True "Answered True"]
    names_or_all_exactly_one [of "[]" True example_cluster False Aborted]
  by simp


text \<open>
  Claim C9. The listing of the jobs, made without the check of leftovers, never raises
  \<open>BadParameter\<close> (\<open>unchecked_listing_never_validation_error\<close>), and where every listed
  service and deployment has labels, \<open>remove\<close> raises \<open>BadParameter\<close> if and only if an
  app name is left over among the services or the deployments (\<open>remove_with_labels\<close>).
  With an object without labels among the services, the app name \<^verbatim>\<open>web\<close> that no
  service has ends \<open>remove\<close> with \<open>AttributeError\<close>, not with \<open>BadParameter\<close>.
\<close>

theorem unmatched_name_is_no_validation_error:
  "leftover (services example_cluster_unmatched) [''web''] = {''web''}
   \<and> remove example_cluster_unmatched False True (Answered True) [''web'']
        = ([List_objects ''Services''], Inl AttributeError)"
  by (simp add: remove_def get_objects_to_delete_def name_in_def example_without_labels_def
      example_cluster_unmatched_def leftover_def matched_names_def matches_def name_label_def)

section \<open>Running a command\<close>








end
